theory Spec2Isabelle
  imports Main "HOL-Library.Word" "HOL-Library.Multiset"
begin

unbundle bit_operations_syntax

section \<open>Strings and bytes\<close>

text \<open>
  A Python \<open>str\<close> is represented by the bytes of its UTF-8 encoding, as a \<open>string\<close>
  (a list of 8-bit characters). The operations the program applies to its strings
  (\<open>startswith\<close> with an ASCII prefix, \<open>+\<close>, \<open>lstrip('/')\<close>, comparison with \<open>''\<close>,
  and the equality tests SQLite makes on \<open>TEXT\<close> values, which it stores in UTF-8)
  commute with that encoding, so \<open>url.encode()\<close> is the conversion of each character to
  its byte. A \<open>str\<close> holding a lone surrogate has no UTF-8 encoding and is outside this
  representation.
\<close>

type_synonym byte = "8 word"
type_synonym u32 = "32 word"

definition encode :: "string \<Rightarrow> byte list" where
  "encode s = map of_char s"

text \<open>\<open>s.startswith((p1, p2, ...))\<close>: some element of the tuple is a prefix of \<open>s\<close>.\<close>

definition startswith :: "string \<Rightarrow> string list \<Rightarrow> bool" where
  "startswith s ps = list_ex (\<lambda>p. take (length p) s = p) ps"

text \<open>\<open>s.lstrip(chars)\<close>: drop the leading characters that occur in \<open>chars\<close>.\<close>

definition lstrip :: "string \<Rightarrow> string \<Rightarrow> string" where
  "lstrip s chars = dropWhile (\<lambda>c. c \<in> set chars) s"

section \<open>MD5 (\<open>hashlib.md5\<close>, RFC 1321)\<close>

definition md5_s :: "nat list" where
  "md5_s = [7, 12, 17, 22, 7, 12, 17, 22, 7, 12, 17, 22, 7, 12, 17, 22,
            5, 9, 14, 20, 5, 9, 14, 20, 5, 9, 14, 20, 5, 9, 14, 20,
            4, 11, 16, 23, 4, 11, 16, 23, 4, 11, 16, 23, 4, 11, 16, 23,
            6, 10, 15, 21, 6, 10, 15, 21, 6, 10, 15, 21, 6, 10, 15, 21]"

definition md5_K :: "u32 list" where
  "md5_K =
    [0xd76aa478, 0xe8c7b756, 0x242070db, 0xc1bdceee,
     0xf57c0faf, 0x4787c62a, 0xa8304613, 0xfd469501,
     0x698098d8, 0x8b44f7af, 0xffff5bb1, 0x895cd7be,
     0x6b901122, 0xfd987193, 0xa679438e, 0x49b40821,
     0xf61e2562, 0xc040b340, 0x265e5a51, 0xe9b6c7aa,
     0xd62f105d, 0x02441453, 0xd8a1e681, 0xe7d3fbc8,
     0x21e1cde6, 0xc33707d6, 0xf4d50d87, 0x455a14ed,
     0xa9e3e905, 0xfcefa3f8, 0x676f02d9, 0x8d2a4c8a,
     0xfffa3942, 0x8771f681, 0x6d9d6122, 0xfde5380c,
     0xa4beea44, 0x4bdecfa9, 0xf6bb4b60, 0xbebfbc70,
     0x289b7ec6, 0xeaa127fa, 0xd4ef3085, 0x04881d05,
     0xd9d4d039, 0xe6db99e5, 0x1fa27cf8, 0xc4ac5665,
     0xf4292244, 0x432aff97, 0xab9423a7, 0xfc93a039,
     0x655b59c3, 0x8f0ccc92, 0xffeff47d, 0x85845dd1,
     0x6fa87e4f, 0xfe2ce6e0, 0xa3014314, 0x4e0811a1,
     0xf7537e82, 0xbd3af235, 0x2ad7d2bb, 0xeb86d391]"

text \<open>The \<open>k\<close> low bytes of a word, least significant first.\<close>

definition le_bytes :: "nat \<Rightarrow> 'a::len word \<Rightarrow> byte list" where
  "le_bytes k w = map (\<lambda>i. ucast (drop_bit (8 * i) w)) [0..<k]"

text \<open>
  Padding: the byte \<open>0x80\<close>, zero bytes up to 56 modulo 64, then the length of the
  message in bits as a 64-bit little-endian number.
\<close>

definition md5_pad :: "byte list \<Rightarrow> byte list" where
  "md5_pad m = m @ [0x80] @ replicate ((119 - length m mod 64) mod 64) 0
                 @ le_bytes 8 (of_nat (8 * length m) :: 64 word)"

fun le_word :: "byte list \<Rightarrow> u32" where
  "le_word [] = 0"
| "le_word (b # bs) = ucast b + 256 * le_word bs"

fun chunks :: "nat \<Rightarrow> 'a list \<Rightarrow> 'a list list" where
  "chunks n xs = (if n = 0 \<or> xs = [] then [] else take n xs # chunks n (drop n xs))"

declare chunks.simps [simp del]

type_synonym md5_state = "u32 \<times> u32 \<times> u32 \<times> u32"

definition md5_step :: "u32 list \<Rightarrow> md5_state \<Rightarrow> nat \<Rightarrow> md5_state" where
  "md5_step M st i =
    (case st of (a, b, c, d) \<Rightarrow>
      let (f, g) =
            (if i < 16 then ((b AND c) OR (NOT b AND d), i)
             else if i < 32 then ((d AND b) OR (NOT d AND c), (5 * i + 1) mod 16)
             else if i < 48 then (b XOR c XOR d, (3 * i + 5) mod 16)
             else (c XOR (b OR NOT d), (7 * i) mod 16));
          f' = f + a + md5_K ! i + M ! g
      in (d, b + word_rotl (md5_s ! i) f', b, c))"

definition md5_block :: "md5_state \<Rightarrow> byte list \<Rightarrow> md5_state" where
  "md5_block st blk =
    (case st of (a0, b0, c0, d0) \<Rightarrow>
      case foldl (md5_step (map le_word (chunks 4 blk))) st [0..<64] of
        (a, b, c, d) \<Rightarrow> (a0 + a, b0 + b, c0 + c, d0 + d))"

definition md5_init :: md5_state where
  "md5_init = (0x67452301, 0xefcdab89, 0x98badcfe, 0x10325476)"

definition md5_digest :: "byte list \<Rightarrow> byte list" where
  "md5_digest m =
    (case foldl md5_block md5_init (chunks 64 (md5_pad m)) of
      (a, b, c, d) \<Rightarrow> concat (map (le_bytes 4) [a, b, c, d]))"

definition hex_digit :: "nat \<Rightarrow> char" where
  "hex_digit n = ''0123456789abcdef'' ! (n mod 16)"

definition hex_byte :: "byte \<Rightarrow> string" where
  "hex_byte b = [hex_digit (unat b div 16), hex_digit (unat b mod 16)]"

text \<open>\<open>hash_object.hexdigest()\<close>: two lower-case hexadecimal digits per digest byte.\<close>

definition hexdigest :: "byte list \<Rightarrow> string" where
  "hexdigest bs = concat (map hex_byte bs)"

section \<open>The store: table \<open>urls\<close>\<close>

text \<open>
  One record per row of the table created by \<open>init_database\<close>. \<open>created_at\<close> is the
  value of \<open>CURRENT_TIMESTAMP\<close> at the insertion, a text \<open>YYYY-MM-DD HH:MM:SS\<close> whose
  order as text is the order of the seconds it denotes: it is kept as that number of
  seconds. \<open>click_count\<close> is the Python \<open>int\<close> read back from the column. The table is
  the list of its rows in the order of their row ids.
\<close>

record url_row =
  row_id :: nat
  short_code :: string
  original_url :: string
  created_at :: nat
  click_count :: int

type_synonym database = "url_row list"

datatype sqlite_error = IntegrityError

text \<open>
  \<open>CREATE TABLE IF NOT EXISTS urls\<close>: the argument is the table found in the file,
  \<open>None\<close> when there is none yet.
\<close>

definition init_database :: "database option \<Rightarrow> database" where
  "init_database file = (case file of None \<Rightarrow> [] | Some db \<Rightarrow> db)"

text \<open>\<open>INTEGER PRIMARY KEY AUTOINCREMENT\<close>: one more than the largest row id.\<close>

definition next_rowid :: "database \<Rightarrow> nat" where
  "next_rowid db = Suc (fold max (map row_id db) 0)"

text \<open>
  \<open>INSERT INTO urls (short_code, original_url) VALUES (?, ?)\<close> at clock reading
  \<open>now\<close>. The column \<open>short_code\<close> is \<open>UNIQUE\<close>: a second row with the same code is
  refused with \<open>sqlite3.IntegrityError\<close> and the table is left as it was. The other two
  columns take their defaults.
\<close>

definition sql_insert :: "database \<Rightarrow> nat \<Rightarrow> string \<Rightarrow> string \<Rightarrow> sqlite_error + database" where
  "sql_insert db now code url =
    (if list_ex (\<lambda>r. short_code r = code) db then Inl IntegrityError
     else Inr (db @ [\<lparr>row_id = next_rowid db, short_code = code, original_url = url,
                      created_at = now, click_count = 0\<rparr>]))"

text \<open>\<open>cursor.fetchone()\<close>: the first row of the result, \<open>None\<close> when there is none.\<close>

definition fetchone :: "'a list \<Rightarrow> 'a option" where
  "fetchone rows = (case rows of [] \<Rightarrow> None | r # _ \<Rightarrow> Some r)"

section \<open>\<open>URLShortener\<close>\<close>

definition generate_short_code :: "string \<Rightarrow> string" where
  "generate_short_code url = take 6 (hexdigest (md5_digest (encode url)))"

text \<open>
  The first statement of \<open>add_url\<close>: \<open>original_url\<close> is replaced by
  \<open>'http://' + original_url\<close> unless it starts with one of the two schemes.
\<close>

definition with_scheme :: "string \<Rightarrow> string" where
  "with_scheme original_url0 =
     (if \<not> startswith original_url0 [''http://'', ''https://'']
      then ''http://'' @ original_url0 else original_url0)"

text \<open>
  \<open>add_url\<close> returns the table after the call and the value returned to the caller
  (\<open>None\<close> is Python's \<open>None\<close>); \<open>Inl\<close> would be an exception leaving the method.
  The \<open>except\<close> clause runs its \<open>SELECT\<close> on the table as it was before the refused
  \<open>INSERT\<close>.
\<close>

definition add_url :: "database \<Rightarrow> nat \<Rightarrow> string \<Rightarrow> sqlite_error + (database \<times> string option)" where
  "add_url db now original_url0 =
    (let original_url1 = with_scheme original_url0;
         code = generate_short_code original_url1
     in case sql_insert db now code original_url1 of
          Inr db' \<Rightarrow> Inr (db', Some code)
        | Inl IntegrityError \<Rightarrow>
            Inr (db, fetchone (map short_code
                        (filter (\<lambda>r. original_url r = original_url1) db))))"

definition get_original_url :: "database \<Rightarrow> string \<Rightarrow> string option" where
  "get_original_url db code =
     fetchone (map original_url (filter (\<lambda>r. short_code r = code) db))"

definition increment_click_count :: "database \<Rightarrow> string \<Rightarrow> database" where
  "increment_click_count db code =
     map (\<lambda>r. if short_code r = code then r\<lparr>click_count := click_count r + 1\<rparr> else r) db"

text \<open>
  \<open>ORDER BY created_at DESC\<close>: SQL leaves the order of rows with equal keys open; the
  stable sort used here is one of the orders it allows.
\<close>

definition get_all_urls :: "database \<Rightarrow> (string \<times> string \<times> nat \<times> int) list" where
  "get_all_urls db =
     map (\<lambda>r. (short_code r, original_url r, created_at r, click_count r))
       (sort_key (\<lambda>r. - int (created_at r)) db)"

section \<open>The HTTP library: \<open>BaseHTTPRequestHandler\<close>\<close>

text \<open>
  The part of \<open>http.server\<close> that \<open>do_GET\<close> calls. A byte string (Python \<open>bytes\<close>) is
  written as a \<open>string\<close>, one character per byte.
\<close>

type_synonym bytes = string

datatype py_error = UnicodeEncodeError

definition CRLF :: string where
  "CRLF = [CHR 0x0D, CHR 0x0A]"

text \<open>
  \<open>s.encode('latin-1', 'strict')\<close> on the UTF-8 representation of \<open>s\<close>: an ASCII
  character is its own byte, the two-byte sequences with lead byte \<open>0xC2\<close> or \<open>0xC3\<close>
  are the code points \<open>0x80\<close> to \<open>0xFF\<close>, and every other character (a code point
  above \<open>0xFF\<close>) raises \<open>UnicodeEncodeError\<close>. A sequence that is not the UTF-8
  form of a string is refused as well.
\<close>

definition continuation :: "char \<Rightarrow> bool" where
  "continuation d \<longleftrightarrow> (0x80::nat) \<le> of_char d \<and> of_char d < (0xC0::nat)"

fun latin1_encode :: "string \<Rightarrow> py_error + bytes" where
  "latin1_encode [] = Inr []"
| "latin1_encode [c] =
     (if of_char c < (0x80::nat) then Inr [c] else Inl UnicodeEncodeError)"
| "latin1_encode (c # d # cs) =
     (if of_char c < (0x80::nat) then
        (case latin1_encode (d # cs) of Inl e \<Rightarrow> Inl e | Inr bs \<Rightarrow> Inr (c # bs))
      else if c = CHR 0xC2 \<and> continuation d then
        (case latin1_encode cs of Inl e \<Rightarrow> Inl e | Inr bs \<Rightarrow> Inr (d # bs))
      else if c = CHR 0xC3 \<and> continuation d then
        (case latin1_encode cs of Inl e \<Rightarrow> Inl e
         | Inr bs \<Rightarrow> Inr (char_of (of_char d + (0x40::nat)) # bs))
      else Inl UnicodeEncodeError)"

text \<open>
  What the handler object holds when \<open>do_GET\<close> is called: the version of the request
  line (\<open>HTTP/0.9\<close> when the line has none), the path, and the two values the library puts
  into its \<open>Server\<close> and \<open>Date\<close> headers, \<open>version_string()\<close> and
  \<open>date_time_string()\<close> (both ASCII, kept as their bytes).
\<close>

record request =
  request_version :: string
  self_path :: string
  version_string :: bytes
  date_time_string :: bytes

text \<open>
  What the handler writes: the lines waiting in \<open>_headers_buffer\<close> and the bytes written
  to \<open>wfile\<close>. \<open>protocol_version\<close> is the library's default \<open>HTTP/1.0\<close>, so a handler
  object serves one request and both are empty when \<open>do_GET\<close> starts.
\<close>

record response =
  headers_buffer :: "bytes list"
  wfile :: bytes

text \<open>\<open>"%d" % code\<close>.\<close>

fun decimal :: "nat \<Rightarrow> string" where
  "decimal n = (if n < 10 then [''0123456789'' ! n]
                else decimal (n div 10) @ [''0123456789'' ! (n mod 10)])"

declare decimal.simps [simp del]

text \<open>The phrases of \<open>self.responses\<close> for the three codes the handler uses.\<close>

definition responses :: "nat \<Rightarrow> string" where
  "responses code =
     (if code = 200 then ''OK'' else if code = 301 then ''Moved Permanently''
      else if code = 404 then ''Not Found'' else [])"

definition send_response_only :: "request \<Rightarrow> response \<Rightarrow> nat \<Rightarrow> response" where
  "send_response_only self out code =
     (if request_version self \<noteq> ''HTTP/0.9'' then
        out\<lparr>headers_buffer := headers_buffer out @
              [''HTTP/1.0 '' @ decimal code @ '' '' @ responses code @ CRLF]\<rparr>
      else out)"

text \<open>
  \<open>send_header\<close>: the line \<open>keyword: value\<close> is encoded in Latin-1 and appended to the
  buffer; the encoding may raise. (None of the keywords used is \<open>Connection\<close>.)
\<close>

definition send_header :: "request \<Rightarrow> response \<Rightarrow> string \<Rightarrow> string \<Rightarrow> py_error + response" where
  "send_header self out keyword val =
     (if request_version self \<noteq> ''HTTP/0.9'' then
        (case latin1_encode (keyword @ '': '' @ val @ CRLF) of
           Inl e \<Rightarrow> Inl e
         | Inr line \<Rightarrow> Inr (out\<lparr>headers_buffer := headers_buffer out @ [line]\<rparr>))
      else Inr out)"

text \<open>
  \<open>send_response\<close>: \<open>log_request\<close> ends in \<open>log_message\<close>, which the handler overrides
  with \<open>pass\<close>; then the status line and the \<open>Server\<close> and \<open>Date\<close> headers.
\<close>

definition send_response :: "request \<Rightarrow> response \<Rightarrow> nat \<Rightarrow> response" where
  "send_response self out code =
     (let out1 = send_response_only self out code in
      if request_version self \<noteq> ''HTTP/0.9'' then
        out1\<lparr>headers_buffer := headers_buffer out1 @
               [''Server: '' @ version_string self @ CRLF,
                ''Date: '' @ date_time_string self @ CRLF]\<rparr>
      else out1)"

definition flush_headers :: "response \<Rightarrow> response" where
  "flush_headers out =
     out\<lparr>wfile := wfile out @ concat (headers_buffer out), headers_buffer := []\<rparr>"

definition end_headers :: "request \<Rightarrow> response \<Rightarrow> response" where
  "end_headers self out =
     (if request_version self \<noteq> ''HTTP/0.9'' then
        flush_headers (out\<lparr>headers_buffer := headers_buffer out @ [CRLF]\<rparr>)
      else out)"

definition wfile_write :: "response \<Rightarrow> bytes \<Rightarrow> response" where
  "wfile_write out bs = out\<lparr>wfile := wfile out @ bs\<rparr>"

section \<open>\<open>RedirectHandler\<close>\<close>

text \<open>A triple-quoted literal of the source: each line after a line break and its indentation.\<close>

definition html_text :: "(nat \<times> string) list \<Rightarrow> string" where
  "html_text ls = concat (map (\<lambda>(n, s). CHR 0x0A # replicate n CHR '' '' @ s) ls)"

definition home_page :: string where
  "home_page = html_text
     [(12, ''<html>''),
      (12, ''<head><title>URL Shortener</title></head>''),
      (12, ''<body>''),
      (16, ''<h1>URL Shortener Service</h1>''),
      (16, ''<p>This is a local URL shortener service running on port 8080.</p>''),
      (16, ''<p>Use the GUI application to create short URLs.</p>''),
      (12, ''</body>''),
      (12, ''</html>''),
      (12, '''')]"

definition not_found_page :: string where
  "not_found_page = html_text
     [(12, ''<html>''),
      (12, ''<head><title>URL Not Found</title></head>''),
      (12, ''<body>''),
      (16, ''<h1>404 - URL Not Found</h1>''),
      (16, ''<p>The short URL you requested does not exist.</p>''),
      (12, ''</body>''),
      (12, ''</html>''),
      (12, '''')]"

text \<open>
  \<open>do_GET\<close>: the table after the request, what has been written and buffered, and the
  exception that left the method, if any. \<open>html.encode()\<close> is UTF-8, the representation
  of the string itself. \<open>if original_url:\<close> is Python's truth test: \<open>None\<close> and the empty
  string both take the \<open>else\<close> branch. The click count is committed before the response
  is built, so it stays when \<open>send_header\<close> raises.
\<close>

definition do_GET :: "database \<Rightarrow> request \<Rightarrow> database \<times> response \<times> py_error option" where
  "do_GET db self =
    (let out0 = \<lparr>headers_buffer = [], wfile = []\<rparr>;
         path = lstrip (self_path self) ''/'';
         not_found =
           (let out1 = send_response self out0 404 in
            case send_header self out1 ''Content-type'' ''text/html'' of
              Inl e \<Rightarrow> (db, out1, Some e)
            | Inr out2 \<Rightarrow> (db, wfile_write (end_headers self out2) not_found_page, None))
     in
     if path = [] then
       (let out1 = send_response self out0 200 in
        case send_header self out1 ''Content-type'' ''text/html'' of
          Inl e \<Rightarrow> (db, out1, Some e)
        | Inr out2 \<Rightarrow> (db, wfile_write (end_headers self out2) home_page, None))
     else
       (case get_original_url db path of
          Some original_url1 \<Rightarrow>
            if original_url1 \<noteq> [] then
              (let db1 = increment_click_count db path;
                   out1 = send_response self out0 301 in
               case send_header self out1 ''Location'' original_url1 of
                 Inl e \<Rightarrow> (db1, out1, Some e)
               | Inr out2 \<Rightarrow> (db1, end_headers self out2, None))
            else not_found
        | None \<Rightarrow> not_found))"

text \<open>
  What a complete response puts on the wire before its body: for a request with a version
  the status line, the \<open>Server\<close> and \<open>Date\<close> headers, the header lines of the handler and
  an empty line, each ended by CR LF; nothing for an \<open>HTTP/0.9\<close> request.
\<close>

definition header_block :: "request \<Rightarrow> nat \<Rightarrow> bytes list \<Rightarrow> bytes" where
  "header_block self code lines =
     (if request_version self \<noteq> ''HTTP/0.9'' then
        concat (map (\<lambda>l. l @ CRLF)
          ([''HTTP/1.0 '' @ decimal code @ '' '' @ responses code,
            ''Server: '' @ version_string self,
            ''Date: '' @ date_time_string self] @ lines @ [[]]))
      else [])"



section \<open>Runs of the core operations\<close>

datatype operation =
    Insert nat string
  | Lookup string
  | IncrementClicks string
  | ListAll
  | Redirect request

fun apply_operation :: "database \<Rightarrow> operation \<Rightarrow> database" where
  "apply_operation db (Insert now url) =
     (case add_url db now url of Inr (db', _) \<Rightarrow> db' | Inl _ \<Rightarrow> db)"
| "apply_operation db (Lookup code) = db"
| "apply_operation db (IncrementClicks code) = increment_click_count db code"
| "apply_operation db ListAll = db"
| "apply_operation db (Redirect self) = fst (do_GET db self)"

definition run :: "database \<Rightarrow> operation list \<Rightarrow> database" where
  "run db ops = foldl apply_operation db ops"

text \<open>The same entry at two moments: everything but the click count is equal.\<close>

definition same_entry :: "url_row \<Rightarrow> url_row \<Rightarrow> bool" where
  "same_entry r r' \<longleftrightarrow>
     row_id r' = row_id r \<and> short_code r' = short_code r \<and>
     original_url r' = original_url r \<and> created_at r' = created_at r"

text \<open>
  What every table built by the program satisfies: the codes are pairwise different (the
  \<open>UNIQUE\<close> constraint), each row was written by \<open>add_url\<close> (a URL with a scheme and the
  code derived from it), and no counter is negative.
\<close>

definition store_inv :: "database \<Rightarrow> bool" where
  "store_inv db \<longleftrightarrow>
     distinct (map short_code db) \<and>
     list_all (\<lambda>r. short_code r = generate_short_code (original_url r) \<and>
                    startswith (original_url r) [''http://'', ''https://''] \<and>
                    0 \<le> click_count r) db"

section \<open>Properties of the digest\<close>

lemma length_le_bytes: "length (le_bytes k w) = k"
  by (simp add: le_bytes_def)

lemma length_md5_digest: "length (md5_digest m) = 16"
  by (simp add: md5_digest_def length_le_bytes split: prod.splits)

lemma length_hexdigest: "length (hexdigest bs) = 2 * length bs"
  by (induction bs) (simp_all add: hexdigest_def hex_byte_def)

lemma length_generate_short_code: "length (generate_short_code url) = 6"
  by (simp add: generate_short_code_def length_hexdigest length_md5_digest)

lemma hex_digit_in: "hex_digit n \<in> set ''0123456789abcdef''"
proof -
  have "n mod 16 < length ''0123456789abcdef''" by simp
  then show ?thesis unfolding hex_digit_def by (rule nth_mem)
qed

lemma set_hexdigest: "set (hexdigest bs) \<subseteq> set ''0123456789abcdef''"
proof -
  define H where "H = set ''0123456789abcdef''"
  have h: "hex_digit n \<in> H" for n
    unfolding H_def by (rule hex_digit_in)
  have "set (hexdigest bs) \<subseteq> H"
    by (induction bs) (simp_all add: hexdigest_def hex_byte_def h)
  then show ?thesis unfolding H_def .
qed

lemma set_generate_short_code: "set (generate_short_code url) \<subseteq> set ''0123456789abcdef''"
  unfolding generate_short_code_def
  by (rule subset_trans [OF set_take_subset set_hexdigest])

subsection \<open>Test values: RFC 1321, appendix A.5\<close>

lemma md5_empty: "hexdigest (md5_digest (encode '''')) = ''d41d8cd98f00b204e9800998ecf8427e''"
  by code_simp

lemma md5_two_blocks:
  "hexdigest (md5_digest (encode
     ''12345678901234567890123456789012345678901234567890123456789012345678901234567890''))
   = ''57edf4a22be3c955ac49da2e2107b67a''"
  by code_simp

text \<open>Short codes of three URLs, computed with the definitions above.\<close>

lemma gsc_example: "generate_short_code ''http://example.com'' = ''a9b9f0''"
  by code_simp

lemma gsc_etc: "generate_short_code ''http://etc.com'' = ''9b3e23''"
  by code_simp

lemma gsc_geo: "generate_short_code ''http://geo.com'' = ''9b3e23''"
  by code_simp

subsection \<open>Scheme prefix\<close>

lemma startswith_with_scheme: "startswith (with_scheme url) [''http://'', ''https://'']"
  by (simp add: with_scheme_def startswith_def)

lemma with_scheme_idem: "with_scheme (with_scheme url) = with_scheme url"
  using startswith_with_scheme [of url] by (simp add: with_scheme_def [of "with_scheme url"])

lemma with_scheme_nonempty: "with_scheme url \<noteq> []"
  by (auto simp: with_scheme_def startswith_def)


subsection \<open>Queries on a table with pairwise different codes\<close>

lemma list_ex_code: "list_ex (\<lambda>r. short_code r = c) db \<longleftrightarrow> c \<in> set (map short_code db)"
  by (auto simp: list_ex_iff)

lemma filter_code_absent:
  "c \<notin> set (map short_code db) \<Longrightarrow> filter (\<lambda>r. short_code r = c) db = []"
  by (induction db) auto

lemma filter_code_distinct:
  "distinct (map short_code db) \<Longrightarrow> r \<in> set db \<Longrightarrow>
   filter (\<lambda>x. short_code x = short_code r) db = [r]"
proof (induction db)
  case Nil
  then show ?case by simp
next
  case (Cons a db)
  show ?case
  proof (cases "a = r")
    case True
    with Cons.prems have "short_code r \<notin> set (map short_code db)" by simp
    then have "filter (\<lambda>x. short_code x = short_code r) db = []"
      by (rule filter_code_absent)
    with True show ?thesis by simp
  next
    case False
    with Cons.prems have r: "r \<in> set db" by simp
    with Cons.prems have "short_code a \<noteq> short_code r" by force
    with Cons r show ?thesis by simp
  qed
qed

lemma get_original_url_absent:
  "c \<notin> set (map short_code db) \<Longrightarrow> get_original_url db c = None"
  by (simp add: get_original_url_def filter_code_absent fetchone_def)

lemma get_original_url_present:
  "distinct (map short_code db) \<Longrightarrow> r \<in> set db \<Longrightarrow>
   get_original_url db (short_code r) = Some (original_url r)"
  by (simp add: get_original_url_def filter_code_distinct fetchone_def)


subsection \<open>The two outcomes of \<open>add_url\<close>\<close>

lemma add_url_fresh:
  "generate_short_code (with_scheme url) \<notin> set (map short_code db) \<Longrightarrow>
   add_url db now url =
     Inr (db @ [\<lparr>row_id = next_rowid db, short_code = generate_short_code (with_scheme url),
                  original_url = with_scheme url, created_at = now, click_count = 0\<rparr>],
          Some (generate_short_code (with_scheme url)))"
  by (simp add: add_url_def sql_insert_def list_ex_code Let_def)

lemma add_url_taken:
  "generate_short_code (with_scheme url) \<in> set (map short_code db) \<Longrightarrow>
   add_url db now url =
     Inr (db, fetchone (map short_code (filter (\<lambda>r. original_url r = with_scheme url) db)))"
  by (simp add: add_url_def sql_insert_def list_ex_code Let_def)

lemma fetchone_filter_url:
  "fetchone (map short_code (filter (\<lambda>r. original_url r = u) db)) = Some c \<Longrightarrow>
   \<exists>r\<in>set db. original_url r = u \<and> short_code r = c"
proof -
  assume "fetchone (map short_code (filter (\<lambda>r. original_url r = u) db)) = Some c"
  then obtain r rs where f: "filter (\<lambda>r. original_url r = u) db = r # rs" and c: "short_code r = c"
    by (auto simp: fetchone_def split: list.splits)
  from f have "r \<in> set (filter (\<lambda>r. original_url r = u) db)" by simp
  with c show ?thesis by auto
qed

lemma fetchone_None_iff: "fetchone xs = None \<longleftrightarrow> xs = []"
  by (simp add: fetchone_def split: list.splits)

subsection \<open>The invariant\<close>

lemma store_inv_Nil: "store_inv []"
  by (simp add: store_inv_def)

lemma store_inv_distinct: "store_inv db \<Longrightarrow> distinct (map short_code db)"
  by (simp add: store_inv_def)

lemma store_inv_row:
  "store_inv db \<Longrightarrow> r \<in> set db \<Longrightarrow>
   short_code r = generate_short_code (original_url r) \<and>
   startswith (original_url r) [''http://'', ''https://''] \<and> 0 \<le> click_count r"
  by (simp add: store_inv_def list_all_iff)

lemma store_inv_add_url:
  assumes "store_inv db" and "add_url db now url = Inr (db', res)"
  shows "store_inv db'"
proof (cases "generate_short_code (with_scheme url) \<in> set (map short_code db)")
  case True
  with assms show ?thesis by (simp add: add_url_taken)
next
  case False
  with assms(2) have "db' = db @ [\<lparr>row_id = next_rowid db,
      short_code = generate_short_code (with_scheme url),
      original_url = with_scheme url, created_at = now, click_count = 0\<rparr>]"
    by (simp add: add_url_fresh)
  with assms(1) False show ?thesis
    by (simp add: store_inv_def startswith_with_scheme)
qed

lemma map_short_code_increment:
  "map short_code (increment_click_count db c) = map short_code db"
  by (induction db) (simp_all add: increment_click_count_def)

lemma store_inv_increment:
  "store_inv db \<Longrightarrow> store_inv (increment_click_count db c)"
  unfolding store_inv_def map_short_code_increment
  by (auto simp: increment_click_count_def list_all_iff)

lemma fst_do_GET:
  "fst (do_GET db self) = db \<or>
   fst (do_GET db self) = increment_click_count db (lstrip (self_path self) ''/'')"
  by (simp add: do_GET_def Let_def split: option.splits sum.splits)

lemma store_inv_do_GET: "store_inv db \<Longrightarrow> store_inv (fst (do_GET db self))"
  using fst_do_GET [of db self] store_inv_increment by metis

lemma add_url_total: "\<exists>db' res. add_url db now url = Inr (db', res)"
  by (cases "generate_short_code (with_scheme url) \<in> set (map short_code db)")
     (simp_all add: add_url_taken add_url_fresh)

lemma store_inv_apply: "store_inv db \<Longrightarrow> store_inv (apply_operation db op)"
proof (cases op)
  case (Insert now url)
  assume "store_inv db"
  then show ?thesis using Insert add_url_total [of db now url] store_inv_add_url
    by (auto split: sum.splits)
qed (simp_all add: store_inv_increment store_inv_do_GET)

lemma store_inv_run: "store_inv db \<Longrightarrow> store_inv (run db ops)"
  unfolding run_def by (induction ops arbitrary: db) (simp_all add: store_inv_apply)

subsection \<open>Successful calls of \<open>add_url\<close>\<close>

lemma with_scheme_example: "with_scheme ''example.com'' = ''http://example.com''"
  by (simp add: with_scheme_def startswith_def)

lemma with_scheme_etc: "with_scheme ''etc.com'' = ''http://etc.com''"
  by (simp add: with_scheme_def startswith_def)

lemma with_scheme_geo: "with_scheme ''geo.com'' = ''http://geo.com''"
  by (simp add: with_scheme_def startswith_def)

lemma add_url_with_scheme: "add_url db now (with_scheme url) = add_url db now url"
  by (simp add: add_url_def with_scheme_idem)

lemma code_inj_on_rows:
  "distinct (map short_code db) \<Longrightarrow> x \<in> set db \<Longrightarrow> r \<in> set db \<Longrightarrow>
   short_code x = short_code r \<Longrightarrow> x = r"
  by (simp add: distinct_map inj_on_def)

lemma filter_url_inv:
  assumes "store_inv db" and "r \<in> set db"
  shows "filter (\<lambda>x. original_url x = original_url r) db = [r]"
proof -
  have d: "distinct (map short_code db)" using assms(1) by (rule store_inv_distinct)
  have "filter (\<lambda>x. original_url x = original_url r) db
        = filter (\<lambda>x. short_code x = short_code r) db"
  proof (rule filter_cong [OF refl])
    fix x assume x: "x \<in> set db"
    show "(original_url x = original_url r) = (short_code x = short_code r)"
    proof
      assume "original_url x = original_url r"
      then show "short_code x = short_code r"
        using store_inv_row [OF assms(1) x] store_inv_row [OF assms(1) assms(2)] by simp
    next
      assume "short_code x = short_code r"
      with d x assms(2) have "x = r" by (rule code_inj_on_rows)
      then show "original_url x = original_url r" by simp
    qed
  qed
  also have "\<dots> = [r]" using d assms(2) by (rule filter_code_distinct)
  finally show ?thesis .
qed

text \<open>What a successful call leaves behind, in a table that satisfies the invariant.\<close>

lemma add_url_Some:
  assumes inv: "store_inv db" and a: "add_url db now url = Inr (db', Some code)"
  shows "code = generate_short_code (with_scheme url)"
    and "get_original_url db' code = Some (with_scheme url)"
proof -
  let ?u = "with_scheme url" and ?c = "generate_short_code (with_scheme url)"
  have inv': "store_inv db'" using inv a by (rule store_inv_add_url)
  have "code = ?c \<and> (\<exists>r\<in>set db'. short_code r = code \<and> original_url r = ?u)"
  proof (cases "?c \<in> set (map short_code db)")
    case False
    then have "add_url db now url =
      Inr (db @ [\<lparr>row_id = next_rowid db, short_code = ?c,
                  original_url = ?u, created_at = now, click_count = 0\<rparr>], Some ?c)"
      by (rule add_url_fresh)
    with a have "db' = db @ [\<lparr>row_id = next_rowid db, short_code = ?c,
                  original_url = ?u, created_at = now, click_count = 0\<rparr>]" and "code = ?c"
      by auto
    then show ?thesis by simp
  next
    case True
    then have "add_url db now url =
       Inr (db, fetchone (map short_code (filter (\<lambda>r. original_url r = ?u) db)))"
      by (rule add_url_taken)
    with a have db': "db' = db"
      and f: "fetchone (map short_code (filter (\<lambda>r. original_url r = ?u) db)) = Some code"
      by auto
    from fetchone_filter_url [OF f] obtain r
      where r: "r \<in> set db" "original_url r = ?u" "short_code r = code" by blast
    from store_inv_row [OF inv r(1)] r have "code = ?c" by simp
    with r db' show ?thesis by blast
  qed
  then obtain r where c: "code = ?c" and r: "r \<in> set db'" "short_code r = code" "original_url r = ?u"
    by blast
  show "code = ?c" by (rule c)
  show "get_original_url db' code = Some ?u"
    using get_original_url_present [OF store_inv_distinct [OF inv'] r(1)] r by simp
qed

subsection \<open>Repeated calls of \<open>add_url\<close>\<close>

lemma count_list_original_url:
  "count_list (map original_url db) u = length (filter (\<lambda>r. original_url r = u) db)"
  by (induction db) simp_all

lemma add_url_known:
  assumes inv: "store_inv db" and r: "r \<in> set db" and u: "original_url r = with_scheme url"
  shows "add_url db now url = Inr (db, Some (generate_short_code (with_scheme url)))"
proof -
  have c: "short_code r = generate_short_code (with_scheme url)"
    using store_inv_row [OF inv r] u by simp
  with r have "generate_short_code (with_scheme url) \<in> set (map short_code db)" by force
  then have "add_url db now url =
       Inr (db, fetchone (map short_code (filter (\<lambda>r. original_url r = with_scheme url) db)))"
    by (rule add_url_taken)
  moreover have "filter (\<lambda>x. original_url x = with_scheme url) db = [r]"
    using filter_url_inv [OF inv r] u by simp
  ultimately show ?thesis using c by (simp add: fetchone_def)
qed

text \<open>
  A code held by a row for another URL: the insertion is refused, the lookup by URL
  finds nothing and the call returns \<open>None\<close> without storing anything.
\<close>

lemma add_url_collision:
  assumes inv: "store_inv db" and r: "r \<in> set db"
    and c: "short_code r = generate_short_code (with_scheme url)"
    and u: "original_url r \<noteq> with_scheme url"
  shows "add_url db now url = Inr (db, None)"
proof -
  from r c have "generate_short_code (with_scheme url) \<in> set (map short_code db)" by force
  then have "add_url db now url =
       Inr (db, fetchone (map short_code (filter (\<lambda>r. original_url r = with_scheme url) db)))"
    by (rule add_url_taken)
  moreover have "filter (\<lambda>x. original_url x = with_scheme url) db = []"
  proof (rule ccontr)
    assume "filter (\<lambda>x. original_url x = with_scheme url) db \<noteq> []"
    then obtain x where x: "x \<in> set db" "original_url x = with_scheme url"
      by (auto simp: filter_empty_conv)
    then have "short_code x = short_code r" using store_inv_row [OF inv x(1)] c by simp
    with store_inv_distinct [OF inv] x(1) r have "x = r" by (rule code_inj_on_rows)
    with x u show False by simp
  qed
  ultimately show ?thesis by (simp add: fetchone_def)
qed

subsection \<open>Click counts\<close>

lemma length_increment: "length (increment_click_count db c) = length db"
  by (simp add: increment_click_count_def)

lemma nth_increment:
  "i < length db \<Longrightarrow>
   increment_click_count db c ! i =
     (if short_code (db ! i) = c then (db ! i)\<lparr>click_count := click_count (db ! i) + 1\<rparr>
      else db ! i)"
  by (simp add: increment_click_count_def)

lemma increment_absent:
  "c \<notin> set (map short_code db) \<Longrightarrow> increment_click_count db c = db"
  unfolding increment_click_count_def by (induction db) auto

lemma length_increment_funpow:
  "length (((\<lambda>d. increment_click_count d c) ^^ n) db) = length db"
  by (induction n) (simp_all add: length_increment)

lemma nth_increment_funpow:
  "i < length db \<Longrightarrow> short_code (db ! i) = c \<Longrightarrow>
   ((\<lambda>d. increment_click_count d c) ^^ n) db ! i
     = (db ! i)\<lparr>click_count := click_count (db ! i) + int n\<rparr>"
proof (induction n)
  case 0
  then show ?case by simp
next
  case (Suc n)
  then show ?case
    by (simp add: nth_increment length_increment_funpow)
qed

subsection \<open>Entries along a run\<close>

lemma same_entry_refl: "same_entry r r"
  by (simp add: same_entry_def)

lemma same_entry_trans: "same_entry r s \<Longrightarrow> same_entry s t \<Longrightarrow> same_entry r t"
  by (simp add: same_entry_def)

lemma increment_row:
  assumes "i < length db"
  shows "same_entry (db ! i) (increment_click_count db c ! i) \<and>
         click_count (db ! i) \<le> click_count (increment_click_count db c ! i) \<and>
         click_count (increment_click_count db c ! i) \<le> click_count (db ! i) + 1"
  using assms by (simp add: nth_increment same_entry_def)

lemma add_url_cases:
  assumes "add_url db now url = Inr (db', res)"
  shows "db' = db \<or>
         db' = db @ [\<lparr>row_id = next_rowid db,
                      short_code = generate_short_code (with_scheme url),
                      original_url = with_scheme url, created_at = now, click_count = 0\<rparr>]"
proof (cases "generate_short_code (with_scheme url) \<in> set (map short_code db)")
  case True
  from add_url_taken [OF True, of now] assms show ?thesis by simp
next
  case False
  from add_url_fresh [OF False, of now] assms show ?thesis by simp
qed

lemma apply_operation_cases:
  "apply_operation db op = db
   \<or> (\<exists>c. apply_operation db op = increment_click_count db c)
   \<or> (\<exists>now url. add_url db now url = Inr (apply_operation db op,
                       Some (generate_short_code (with_scheme url))) \<and>
         generate_short_code (with_scheme url) \<notin> set (map short_code db))"
proof (cases op)
  case (Insert now url)
  show ?thesis
  proof (cases "generate_short_code (with_scheme url) \<in> set (map short_code db)")
    case True
    with Insert show ?thesis by (simp add: add_url_taken)
  next
    case False
    from add_url_fresh [OF False, of now] Insert False show ?thesis
      by (intro disjI2) (rule exI [of _ now], rule exI [of _ url], simp)
  qed
next
  case (Redirect p)
  with fst_do_GET [of db p] show ?thesis by auto
qed auto

lemma apply_operation_row:
  assumes "i < length db"
  shows "i < length (apply_operation db op) \<and>
         same_entry (db ! i) (apply_operation db op ! i) \<and>
         click_count (db ! i) \<le> click_count (apply_operation db op ! i) \<and>
         click_count (apply_operation db op ! i) \<le> click_count (db ! i) + 1"
proof -
  consider "apply_operation db op = db"
    | c where "apply_operation db op = increment_click_count db c"
    | now url where "add_url db now url = Inr (apply_operation db op,
                       Some (generate_short_code (with_scheme url)))"
    using apply_operation_cases [of db op] by blast
  then show ?thesis
  proof cases
    case 1
    with assms show ?thesis by (simp add: same_entry_refl)
  next
    case 2
    with assms increment_row [OF assms, of c] show ?thesis by (simp add: length_increment)
  next
    case 3
    from add_url_cases [OF 3] assms show ?thesis
      by (auto simp: same_entry_refl nth_append)
  qed
qed

lemma run_Cons: "run db (op # ops) = run (apply_operation db op) ops"
  by (simp add: run_def)

lemma run_Nil: "run db [] = db"
  by (simp add: run_def)

lemma run_row:
  "i < length db \<Longrightarrow>
     i < length (run db ops) \<and> same_entry (db ! i) (run db ops ! i) \<and>
     click_count (db ! i) \<le> click_count (run db ops ! i) \<and>
     click_count (run db ops ! i) \<le> click_count (db ! i) + int (length ops)"
proof (induction ops arbitrary: db)
  case Nil
  then show ?case by (simp add: run_Nil same_entry_refl)
next
  case (Cons op ops)
  from apply_operation_row [OF Cons.prems, of op]
  have 1: "i < length (apply_operation db op)"
    and 2: "same_entry (db ! i) (apply_operation db op ! i)"
    and 3: "click_count (db ! i) \<le> click_count (apply_operation db op ! i)"
    and 4: "click_count (apply_operation db op ! i) \<le> click_count (db ! i) + 1"
    by simp_all
  from Cons.IH [OF 1]
  have 5: "i < length (run (apply_operation db op) ops)"
    and 6: "same_entry (apply_operation db op ! i) (run (apply_operation db op) ops ! i)"
    and 7: "click_count (apply_operation db op ! i)
              \<le> click_count (run (apply_operation db op) ops ! i)"
    and 8: "click_count (run (apply_operation db op) ops ! i)
              \<le> click_count (apply_operation db op ! i) + int (length ops)"
    by simp_all
  from 5 same_entry_trans [OF 2 6] 3 4 7 8 show ?case
    by (simp add: run_Cons)
qed

lemma distinct_codes_apply:
  assumes "distinct (map short_code db)"
  shows "distinct (map short_code (apply_operation db op))"
proof -
  consider "apply_operation db op = db"
    | c where "apply_operation db op = increment_click_count db c"
    | now url where "add_url db now url = Inr (apply_operation db op,
                       Some (generate_short_code (with_scheme url)))"
         and "generate_short_code (with_scheme url) \<notin> set (map short_code db)"
    using apply_operation_cases [of db op] by blast
  then show ?thesis
  proof cases
    case 1
    with assms show ?thesis by simp
  next
    case 2
    with assms show ?thesis by (simp add: map_short_code_increment)
  next
    case 3
    from add_url_fresh [OF 3(2), of now] 3 assms show ?thesis by auto
  qed
qed

lemma distinct_codes_run:
  "distinct (map short_code db) \<Longrightarrow> distinct (map short_code (run db ops))"
  by (induction ops arbitrary: db) (simp_all add: run_Nil run_Cons distinct_codes_apply)

text \<open>
  SQLite keeps an \<open>INTEGER\<close> in 64 bits. A counter starts at 0 and an operation adds at
  most 1 to it, so after \<open>n\<close> operations on the empty table no counter is above \<open>n\<close>:
  the bound \<open>2^63 - 1\<close> is out of reach of any run, and the counter is a Python \<open>int\<close> here.
\<close>

lemma run_row_new:
  "r \<in> set (run db ops) \<Longrightarrow>
     (\<exists>i<length db. click_count r \<le> click_count (db ! i) + int (length ops))
     \<or> click_count r \<le> int (length ops)"
proof (induction ops arbitrary: db)
  case Nil
  then show ?case by (auto simp: run_Nil in_set_conv_nth)
next
  case (Cons op ops)
  let ?db = "apply_operation db op"
  from Cons.prems have "r \<in> set (run ?db ops)" by (simp add: run_Cons)
  from Cons.IH [OF this] consider
    i where "i < length ?db" "click_count r \<le> click_count (?db ! i) + int (length ops)"
    | "click_count r \<le> int (length ops)" by blast
  then show ?case
  proof cases
    case 2
    then show ?thesis by simp
  next
    case 1
    show ?thesis
    proof (cases "i < length db")
      case True
      from apply_operation_row [OF True, of op] 1 True show ?thesis
        by (intro disjI1 exI [of _ i]) simp
    next
      case False
      consider "?db = db" | c where "?db = increment_click_count db c"
        | now url where "add_url db now url = Inr (?db,
                       Some (generate_short_code (with_scheme url)))"
        using apply_operation_cases [of db op] by blast
      then have "click_count (?db ! i) = 0"
      proof cases
        case 1
        with \<open>i < length ?db\<close> False show ?thesis by simp
      next
        case 2
        with \<open>i < length ?db\<close> False show ?thesis by (simp add: length_increment)
      next
        case 3
        from add_url_cases [OF 3] \<open>i < length ?db\<close> False show ?thesis
          by (auto simp: nth_append)
      qed
      with 1 show ?thesis by simp
    qed
  qed
qed

lemma click_count_bound:
  "r \<in> set (run [] ops) \<Longrightarrow> click_count r \<le> int (length ops)"
  using run_row_new [of r "[]" ops] by simp

subsection \<open>The listing\<close>

lemma sorted_desc_sort_key:
  "sorted_wrt (\<lambda>a b. created_at b \<le> created_at a) (sort_key (\<lambda>r. - int (created_at r)) db)"
proof -
  have "sorted (map (\<lambda>r. - int (created_at r)) (sort_key (\<lambda>r. - int (created_at r)) db))"
    by (rule sorted_sort_key)
  then show ?thesis by (simp add: sorted_wrt_map)
qed

lemma get_all_urls_example:
  "get_all_urls
     [\<lparr>row_id = 1, short_code = ''a9b9f0'', original_url = ''http://example.com'',
        created_at = 5, click_count = 2\<rparr>,
      \<lparr>row_id = 2, short_code = ''9b3e23'', original_url = ''http://etc.com'',
        created_at = 9, click_count = 0\<rparr>]
   = [(''9b3e23'', ''http://etc.com'', 9, 0), (''a9b9f0'', ''http://example.com'', 5, 2)]"
  by (simp add: get_all_urls_def)

subsection \<open>Latin-1\<close>






subsection \<open>Responses\<close>







subsection \<open>Header lines\<close>



subsection \<open>Requests\<close>








lemma header_block_path [simp]:
  "header_block (self\<lparr>self_path := p\<rparr>) code lines = header_block self code lines"
  by (simp add: header_block_def)

lemma decimal_codes: "decimal 200 = ''200''" "decimal 301 = ''301''" "decimal 404 = ''404''"
  by (simp_all add: decimal.simps)

subsection \<open>Examples\<close>




lemma do_GET_example:
  "do_GET [\<lparr>row_id = i, short_code = ''a9b9f0'', original_url = ''http://example.com'',
             created_at = 5, click_count = n\<rparr>]
     \<lparr>request_version = ''HTTP/1.1'', self_path = ''/a9b9f0'',
      version_string = ''BaseHTTP/0.6 Python/3.11.10'',
      date_time_string = ''Tue, 03 Nov 2026 18:18:35 GMT''\<rparr>
   = ([\<lparr>row_id = i, short_code = ''a9b9f0'', original_url = ''http://example.com'',
             created_at = 5, click_count = n + 1\<rparr>],
      \<lparr>headers_buffer = [],
       wfile = ''HTTP/1.0 301 Moved Permanently'' @ CRLF @
               ''Server: BaseHTTP/0.6 Python/3.11.10'' @ CRLF @
               ''Date: Tue, 03 Nov 2026 18:18:35 GMT'' @ CRLF @
               ''Location: http://example.com'' @ CRLF @ CRLF\<rparr>, None)"
  by (simp add: do_GET_def lstrip_def get_original_url_def fetchone_def
      increment_click_count_def send_response_def send_response_only_def send_header_def
      end_headers_def flush_headers_def decimal_codes responses_def CRLF_def)

text \<open>
  Shortening \<open>example.com\<close> and following the short link twice: one row, with the
  prefixed URL, the code \<open>a9b9f0\<close> and two clicks.
\<close>

lemma run_example:
  "run [] [Insert 5 ''example.com'',
           Redirect \<lparr>request_version = ''HTTP/1.1'', self_path = ''/a9b9f0'',
             version_string = ''BaseHTTP/0.6 Python/3.11.10'',
             date_time_string = ''Tue, 03 Nov 2026 18:18:35 GMT''\<rparr>,
           Redirect \<lparr>request_version = ''HTTP/1.1'', self_path = ''/a9b9f0'',
             version_string = ''BaseHTTP/0.6 Python/3.11.10'',
             date_time_string = ''Tue, 03 Nov 2026 18:18:35 GMT''\<rparr>]
   = [\<lparr>row_id = 1, short_code = ''a9b9f0'', original_url = ''http://example.com'',
        created_at = 5, click_count = 2\<rparr>]"
  by (simp add: run_def add_url_fresh with_scheme_example gsc_example next_rowid_def
      do_GET_example)

section \<open>The claims\<close>

text \<open>
  C1. For every URL, \<open>add_url\<close> works on the URL with its scheme: a URL that starts with
  neither \<open>http://\<close> nor \<open>https://\<close> is handled as \<open>"http://" + url\<close>. The call is the
  call on the prefixed string; when the short code derived from the prefixed string is
  free, the row stored holds that code and the prefixed string as \<open>original_url\<close>; when
  the code is taken, the lookup is by the prefixed string. A URL that starts with one of
  the two schemes is handled as it is, in both cases. Whenever a code is returned on a
  table built by the program, it is the code derived from the URL with its scheme, and the
  row found under it holds that URL.
\<close>

theorem add_url_scheme_prefix:
  "(\<not> startswith url [''http://'', ''https://''] \<longrightarrow>
      add_url db now url = add_url db now (''http://'' @ url) \<and>
      (generate_short_code (''http://'' @ url) \<notin> set (map short_code db) \<longrightarrow>
         add_url db now url =
           Inr (db @ [\<lparr>row_id = next_rowid db,
                        short_code = generate_short_code (''http://'' @ url),
                        original_url = ''http://'' @ url, created_at = now,
                        click_count = 0\<rparr>],
                Some (generate_short_code (''http://'' @ url)))) \<and>
      (generate_short_code (''http://'' @ url) \<in> set (map short_code db) \<longrightarrow>
         add_url db now url =
           Inr (db, fetchone (map short_code
                  (filter (\<lambda>r. original_url r = ''http://'' @ url) db))))) \<and>
   (startswith url [''http://'', ''https://''] \<longrightarrow>
      (generate_short_code url \<notin> set (map short_code db) \<longrightarrow>
         add_url db now url =
           Inr (db @ [\<lparr>row_id = next_rowid db, short_code = generate_short_code url,
                        original_url = url, created_at = now, click_count = 0\<rparr>],
                Some (generate_short_code url))) \<and>
      (generate_short_code url \<in> set (map short_code db) \<longrightarrow>
         add_url db now url =
           Inr (db, fetchone (map short_code (filter (\<lambda>r. original_url r = url) db))))) \<and>
   (store_inv db \<longrightarrow> add_url db now url = Inr (db', Some code) \<longrightarrow>
      code = generate_short_code
               (if startswith url [''http://'', ''https://''] then url else ''http://'' @ url) \<and>
      get_original_url db' code =
        Some (if startswith url [''http://'', ''https://''] then url else ''http://'' @ url))"
proof -
  let ?S = "[''http://'', ''https://'']"
  have n: "with_scheme url = ''http://'' @ url" if "\<not> startswith url ?S"
    using that by (simp add: with_scheme_def)
  have y: "with_scheme url = url" if "startswith url ?S"
    using that by (simp add: with_scheme_def)
  have 1: "add_url db now url = add_url db now (''http://'' @ url)"
    if "\<not> startswith url ?S"
    using add_url_with_scheme [of db now url] by (simp only: n [OF that])
  have 2: "add_url db now url =
           Inr (db @ [\<lparr>row_id = next_rowid db,
                        short_code = generate_short_code (''http://'' @ url),
                        original_url = ''http://'' @ url, created_at = now,
                        click_count = 0\<rparr>],
                Some (generate_short_code (''http://'' @ url)))"
    if "\<not> startswith url ?S"
      and "generate_short_code (''http://'' @ url) \<notin> set (map short_code db)"
    using add_url_fresh [of url db now] that(2) by (simp add: n [OF that(1)])
  have 3: "add_url db now url =
           Inr (db, fetchone (map short_code
                  (filter (\<lambda>r. original_url r = ''http://'' @ url) db)))"
    if "\<not> startswith url ?S"
      and "generate_short_code (''http://'' @ url) \<in> set (map short_code db)"
    using add_url_taken [of url db now] that(2) by (simp add: n [OF that(1)])
  have 4: "add_url db now url =
           Inr (db @ [\<lparr>row_id = next_rowid db, short_code = generate_short_code url,
                        original_url = url, created_at = now, click_count = 0\<rparr>],
                Some (generate_short_code url))"
    if "startswith url ?S" and "generate_short_code url \<notin> set (map short_code db)"
    using add_url_fresh [of url db now] that(2) by (simp add: y [OF that(1)])
  have 5: "add_url db now url =
           Inr (db, fetchone (map short_code (filter (\<lambda>r. original_url r = url) db)))"
    if "startswith url ?S" and "generate_short_code url \<in> set (map short_code db)"
    using add_url_taken [of url db now] that(2) by (simp add: y [OF that(1)])
  have w: "with_scheme url = (if startswith url ?S then url else ''http://'' @ url)"
    by (simp add: with_scheme_def)
  have 6: "code = generate_short_code (if startswith url ?S then url else ''http://'' @ url)
           \<and> get_original_url db' code
               = Some (if startswith url ?S then url else ''http://'' @ url)"
    if "store_inv db" and "add_url db now url = Inr (db', Some code)"
    using add_url_Some [OF that] by (simp only: w simp_thms)
  from 1 2 3 4 5 6 show ?thesis by blast
qed

theorem add_url_scheme_prefix_witness:
  "add_url [] 5 ''example.com'' = add_url [] 5 (''http://'' @ ''example.com'') \<and>
   add_url [] 5 ''example.com'' =
     Inr ([\<lparr>row_id = 1, short_code = ''a9b9f0'', original_url = ''http://example.com'',
            created_at = 5, click_count = 0\<rparr>], Some ''a9b9f0'') \<and>
   add_url [\<lparr>row_id = 1, short_code = ''9b3e23'', original_url = ''http://etc.com'',
             created_at = 0, click_count = 0\<rparr>] 1 ''geo.com'' =
     Inr ([\<lparr>row_id = 1, short_code = ''9b3e23'', original_url = ''http://etc.com'',
            created_at = 0, click_count = 0\<rparr>], None) \<and>
   add_url [] 5 ''http://example.com'' =
     Inr ([\<lparr>row_id = 1, short_code = ''a9b9f0'', original_url = ''http://example.com'',
            created_at = 5, click_count = 0\<rparr>], Some ''a9b9f0'') \<and>
   add_url [\<lparr>row_id = 1, short_code = ''a9b9f0'', original_url = ''http://example.com'',
             created_at = 5, click_count = 0\<rparr>] 9 ''http://example.com'' =
     Inr ([\<lparr>row_id = 1, short_code = ''a9b9f0'', original_url = ''http://example.com'',
            created_at = 5, click_count = 0\<rparr>], Some ''a9b9f0'') \<and>
   get_original_url [\<lparr>row_id = 1, short_code = ''a9b9f0'',
       original_url = ''http://example.com'', created_at = 5, click_count = 0\<rparr>] ''a9b9f0''
     = Some ''http://example.com''"
proof -
  let ?r = "\<lparr>row_id = 1, short_code = ''a9b9f0'', original_url = ''http://example.com'',
            created_at = 5, click_count = 0\<rparr>"
  let ?e = "\<lparr>row_id = 1, short_code = ''9b3e23'', original_url = ''http://etc.com'',
             created_at = 0, click_count = 0\<rparr>"
  have n: "\<not> startswith ''example.com'' [''http://'', ''https://'']"
    "\<not> startswith ''geo.com'' [''http://'', ''https://'']"
    and y: "startswith ''http://example.com'' [''http://'', ''https://'']"
    by (simp_all add: startswith_def)
  have f1: "generate_short_code (''http://'' @ ''example.com'') \<notin> set (map short_code [])"
    by simp
  have f2: "generate_short_code (''http://'' @ ''geo.com'') \<in> set (map short_code [?e])"
    by (simp add: gsc_geo)
  have f3: "generate_short_code ''http://example.com'' \<notin> set (map short_code [])"
    by simp
  have f4: "generate_short_code ''http://example.com'' \<in> set (map short_code [?r])"
    by (simp add: gsc_example)
  note t1 = add_url_scheme_prefix [where url = "''example.com''" and db = "[]" and now = 5]
  from t1 n(1) have 0: "add_url [] 5 ''example.com'' = add_url [] 5 (''http://'' @ ''example.com'')"
    by blast
  from t1 n(1) f1 have "add_url [] 5 ''example.com'' =
      Inr ([] @ [\<lparr>row_id = next_rowid [],
                    short_code = generate_short_code (''http://'' @ ''example.com''),
                    original_url = ''http://'' @ ''example.com'', created_at = 5,
                    click_count = 0\<rparr>],
           Some (generate_short_code (''http://'' @ ''example.com'')))" by blast
  then have 1: "add_url [] 5 ''example.com'' = Inr ([?r], Some ''a9b9f0'')"
    by (simp add: gsc_example next_rowid_def)
  from add_url_scheme_prefix [where url = "''geo.com''" and db = "[?e]" and now = 1] n(2) f2
  have "add_url [?e] 1 ''geo.com'' =
      Inr ([?e], fetchone (map short_code
                  (filter (\<lambda>r. original_url r = ''http://'' @ ''geo.com'') [?e])))" by blast
  then have 2: "add_url [?e] 1 ''geo.com'' = Inr ([?e], None)"
    by (simp add: fetchone_def)
  from add_url_scheme_prefix [where url = "''http://example.com''" and db = "[]" and now = 5]
    y f3
  have "add_url [] 5 ''http://example.com'' =
      Inr ([] @ [\<lparr>row_id = next_rowid [],
                    short_code = generate_short_code ''http://example.com'',
                    original_url = ''http://example.com'', created_at = 5,
                    click_count = 0\<rparr>],
           Some (generate_short_code ''http://example.com''))" by blast
  then have 3: "add_url [] 5 ''http://example.com'' = Inr ([?r], Some ''a9b9f0'')"
    by (simp add: gsc_example next_rowid_def)
  from add_url_scheme_prefix [where url = "''http://example.com''" and db = "[?r]" and now = 9]
    y f4
  have "add_url [?r] 9 ''http://example.com'' =
      Inr ([?r], fetchone (map short_code
                  (filter (\<lambda>r. original_url r = ''http://example.com'') [?r])))" by blast
  then have 4: "add_url [?r] 9 ''http://example.com'' = Inr ([?r], Some ''a9b9f0'')"
    by (simp add: fetchone_def)
  from add_url_scheme_prefix [where url = "''example.com''" and db = "[]" and now = 5
      and db' = "[?r]" and code = "''a9b9f0''"] store_inv_Nil 1
  have "get_original_url [?r] ''a9b9f0'' =
      Some (if startswith ''example.com'' [''http://'', ''https://''] then ''example.com''
            else ''http://'' @ ''example.com'')" by blast
  with n(1) have 5: "get_original_url [?r] ''a9b9f0'' = Some (''http://'' @ ''example.com'')"
    by simp
  from 0 1 2 3 4 5 show ?thesis by simp
qed

text \<open>
  C2. The short code of a URL is the first 6 characters of the hexadecimal form of the
  MD5 digest of the URL's bytes: 6 characters, each a lower-case hexadecimal digit. The
  assignment is deterministic: two calls of \<open>add_url\<close> on the same string that return
  a code return the same code, whatever the table and the clock are.
\<close>

theorem generate_short_code_md5_prefix:
  "generate_short_code url = take 6 (hexdigest (md5_digest (encode url)))
   \<and> length (generate_short_code url) = 6
   \<and> set (generate_short_code url) \<subseteq> set ''0123456789abcdef''
   \<and> (store_inv db1 \<longrightarrow> store_inv db2 \<longrightarrow>
        add_url db1 now1 url = Inr (db1', Some code1) \<longrightarrow>
        add_url db2 now2 url = Inr (db2', Some code2) \<longrightarrow> code1 = code2)"
proof (intro conjI impI)
  show "generate_short_code url = take 6 (hexdigest (md5_digest (encode url)))"
    by (simp add: generate_short_code_def)
  show "length (generate_short_code url) = 6"
    by (rule length_generate_short_code)
  show "set (generate_short_code url) \<subseteq> set ''0123456789abcdef''"
    by (rule set_generate_short_code)
next
  assume "store_inv db1" and "add_url db1 now1 url = Inr (db1', Some code1)"
  then have "code1 = generate_short_code (with_scheme url)" by (rule add_url_Some(1))
  moreover assume "store_inv db2" and "add_url db2 now2 url = Inr (db2', Some code2)"
  then have "code2 = generate_short_code (with_scheme url)" by (rule add_url_Some(1))
  ultimately show "code1 = code2" by simp
qed

theorem generate_short_code_md5_prefix_witness:
  "generate_short_code ''http://example.com'' = ''a9b9f0'' \<and>
   store_inv [] \<and>
   store_inv [\<lparr>row_id = 1, short_code = ''a9b9f0'', original_url = ''http://example.com'',
               created_at = 5, click_count = 3\<rparr>] \<and>
   add_url [] 7 ''example.com'' =
     Inr ([\<lparr>row_id = 1, short_code = ''a9b9f0'', original_url = ''http://example.com'',
            created_at = 7, click_count = 0\<rparr>], Some ''a9b9f0'') \<and>
   add_url [\<lparr>row_id = 1, short_code = ''a9b9f0'', original_url = ''http://example.com'',
               created_at = 5, click_count = 3\<rparr>] 9 ''example.com'' =
     Inr ([\<lparr>row_id = 1, short_code = ''a9b9f0'', original_url = ''http://example.com'',
               created_at = 5, click_count = 3\<rparr>], Some ''a9b9f0'')"
proof -
  let ?r = "\<lparr>row_id = 1, short_code = ''a9b9f0'', original_url = ''http://example.com'',
               created_at = 5, click_count = 3\<rparr>"
  have i: "store_inv [?r]"
    by (simp add: store_inv_def gsc_example startswith_def)
  have a: "add_url [] 7 ''example.com'' =
     Inr ([\<lparr>row_id = 1, short_code = ''a9b9f0'', original_url = ''http://example.com'',
            created_at = 7, click_count = 0\<rparr>], Some ''a9b9f0'')"
    by (simp add: add_url_fresh with_scheme_example gsc_example next_rowid_def)
  have b: "add_url [?r] 9 ''example.com'' = Inr ([?r], Some ''a9b9f0'')"
    by (simp add: add_url_taken with_scheme_example gsc_example fetchone_def)
  have "''a9b9f0'' = ''a9b9f0''"
    using generate_short_code_md5_prefix
      [of "''example.com''" "[]" "[?r]" 7 _ "''a9b9f0''" 9 "[?r]" "''a9b9f0''"]
      store_inv_Nil i a b by blast
  with store_inv_Nil i a b gsc_example show ?thesis by blast
qed

text \<open>
  C3, as amended. In a table built by the program in which the short code of the URL is
  not held by a row for a different URL, two calls of \<open>add_url\<close> with the same URL
  return the same short code, and afterwards the table has exactly one row whose
  \<open>original_url\<close> is that URL.
\<close>

theorem add_url_twice:
  assumes inv: "store_inv db"
    and free: "\<forall>r\<in>set db. short_code r = generate_short_code (with_scheme url)
                 \<longrightarrow> original_url r = with_scheme url"
    and a1: "add_url db now1 url = Inr (db1, res1)"
    and a2: "add_url db1 now2 url = Inr (db2, res2)"
  shows "res1 = Some (generate_short_code (with_scheme url)) \<and> res2 = res1 \<and>
         count_list (map original_url db2) (with_scheme url) = 1"
proof -
  let ?u = "with_scheme url" and ?c = "generate_short_code (with_scheme url)"
  have inv1: "store_inv db1" using inv a1 by (rule store_inv_add_url)
  have "res1 = Some ?c \<and> (\<exists>r\<in>set db1. original_url r = ?u)"
  proof (cases "?c \<in> set (map short_code db)")
    case False
    from add_url_fresh [OF False, of now1] a1 show ?thesis by auto
  next
    case True
    then obtain r where r: "r \<in> set db" "short_code r = ?c" by auto
    with free have u: "original_url r = ?u" by blast
    from add_url_known [OF inv r(1) u, of now1] a1 r(1) u show ?thesis by auto
  qed
  then obtain r where res1: "res1 = Some ?c" and r: "r \<in> set db1" "original_url r = ?u"
    by blast
  from add_url_known [OF inv1 r, of now2] a2 have db2: "db2 = db1" and res2: "res2 = Some ?c"
    by auto
  have "count_list (map original_url db2) ?u = 1"
    using filter_url_inv [OF inv1 r(1)] r(2) db2 by (simp add: count_list_original_url)
  with res1 res2 show ?thesis by simp
qed

theorem add_url_twice_witness:
  "store_inv [\<lparr>row_id = 1, short_code = ''9b3e23'', original_url = ''http://etc.com'',
               created_at = 0, click_count = 0\<rparr>] \<and>
   add_url [\<lparr>row_id = 1, short_code = ''9b3e23'', original_url = ''http://etc.com'',
               created_at = 0, click_count = 0\<rparr>] 5 ''example.com'' =
     Inr ([\<lparr>row_id = 1, short_code = ''9b3e23'', original_url = ''http://etc.com'',
               created_at = 0, click_count = 0\<rparr>,
           \<lparr>row_id = 2, short_code = ''a9b9f0'', original_url = ''http://example.com'',
               created_at = 5, click_count = 0\<rparr>], Some ''a9b9f0'') \<and>
   add_url [\<lparr>row_id = 1, short_code = ''9b3e23'', original_url = ''http://etc.com'',
               created_at = 0, click_count = 0\<rparr>,
            \<lparr>row_id = 2, short_code = ''a9b9f0'', original_url = ''http://example.com'',
               created_at = 5, click_count = 0\<rparr>] 9 ''example.com'' =
     Inr ([\<lparr>row_id = 1, short_code = ''9b3e23'', original_url = ''http://etc.com'',
               created_at = 0, click_count = 0\<rparr>,
           \<lparr>row_id = 2, short_code = ''a9b9f0'', original_url = ''http://example.com'',
               created_at = 5, click_count = 0\<rparr>], Some ''a9b9f0'') \<and>
   count_list (map original_url
       [\<lparr>row_id = 1, short_code = ''9b3e23'', original_url = ''http://etc.com'',
               created_at = 0, click_count = 0\<rparr>,
        \<lparr>row_id = 2, short_code = ''a9b9f0'', original_url = ''http://example.com'',
               created_at = 5, click_count = 0\<rparr>]) (with_scheme ''example.com'') = 1"
proof -
  let ?e = "\<lparr>row_id = 1, short_code = ''9b3e23'', original_url = ''http://etc.com'',
               created_at = 0, click_count = 0\<rparr>"
  let ?r = "\<lparr>row_id = 2, short_code = ''a9b9f0'', original_url = ''http://example.com'',
               created_at = 5, click_count = 0\<rparr>"
  have i: "store_inv [?e]"
    by (simp add: store_inv_def gsc_etc startswith_def)
  have f: "\<forall>r\<in>set [?e]. short_code r = generate_short_code (with_scheme ''example.com'')
        \<longrightarrow> original_url r = with_scheme ''example.com''"
    by (simp add: with_scheme_example gsc_example)
  have a: "add_url [?e] 5 ''example.com'' = Inr ([?e, ?r], Some ''a9b9f0'')"
    by (simp add: add_url_fresh with_scheme_example gsc_example next_rowid_def)
  have b: "add_url [?e, ?r] 9 ''example.com'' = Inr ([?e, ?r], Some ''a9b9f0'')"
    by (simp add: add_url_taken with_scheme_example gsc_example fetchone_def)
  from add_url_twice [OF i f a b] i a b
  show ?thesis by blast
qed

text \<open>
  C3 as stated fails: \<open>http://etc.com\<close> and \<open>http://geo.com\<close> have the same short code
  \<open>9b3e23\<close>. After \<open>etc.com\<close> has been shortened, both calls for \<open>geo.com\<close> return
  \<open>None\<close> and the table has no row for \<open>http://geo.com\<close>.
\<close>

theorem add_url_twice_counterexample:
  "add_url [] 0 ''etc.com'' =
     Inr ([\<lparr>row_id = 1, short_code = ''9b3e23'', original_url = ''http://etc.com'',
            created_at = 0, click_count = 0\<rparr>], Some ''9b3e23'') \<and>
   add_url [\<lparr>row_id = 1, short_code = ''9b3e23'', original_url = ''http://etc.com'',
            created_at = 0, click_count = 0\<rparr>] 1 ''geo.com'' =
     Inr ([\<lparr>row_id = 1, short_code = ''9b3e23'', original_url = ''http://etc.com'',
            created_at = 0, click_count = 0\<rparr>], None) \<and>
   add_url [\<lparr>row_id = 1, short_code = ''9b3e23'', original_url = ''http://etc.com'',
            created_at = 0, click_count = 0\<rparr>] 2 ''geo.com'' =
     Inr ([\<lparr>row_id = 1, short_code = ''9b3e23'', original_url = ''http://etc.com'',
            created_at = 0, click_count = 0\<rparr>], None) \<and>
   count_list (map original_url
     [\<lparr>row_id = 1, short_code = ''9b3e23'', original_url = ''http://etc.com'',
            created_at = 0, click_count = 0\<rparr>]) ''http://geo.com'' \<noteq> 1"
proof (intro conjI)
  show "add_url [] 0 ''etc.com'' =
     Inr ([\<lparr>row_id = 1, short_code = ''9b3e23'', original_url = ''http://etc.com'',
            created_at = 0, click_count = 0\<rparr>], Some ''9b3e23'')"
    by (simp add: add_url_fresh with_scheme_etc gsc_etc next_rowid_def)
  show "add_url [\<lparr>row_id = 1, short_code = ''9b3e23'', original_url = ''http://etc.com'',
            created_at = 0, click_count = 0\<rparr>] 1 ''geo.com'' =
     Inr ([\<lparr>row_id = 1, short_code = ''9b3e23'', original_url = ''http://etc.com'',
            created_at = 0, click_count = 0\<rparr>], None)"
    by (simp add: add_url_taken with_scheme_geo gsc_geo fetchone_def)
  show "add_url [\<lparr>row_id = 1, short_code = ''9b3e23'', original_url = ''http://etc.com'',
            created_at = 0, click_count = 0\<rparr>] 2 ''geo.com'' =
     Inr ([\<lparr>row_id = 1, short_code = ''9b3e23'', original_url = ''http://etc.com'',
            created_at = 0, click_count = 0\<rparr>], None)"
    by (simp add: add_url_taken with_scheme_geo gsc_geo fetchone_def)
  show "count_list (map original_url
     [\<lparr>row_id = 1, short_code = ''9b3e23'', original_url = ''http://etc.com'',
            created_at = 0, click_count = 0\<rparr>]) ''http://geo.com'' \<noteq> 1"
    by simp
qed

text \<open>
  C4. \<open>add_url\<close> never ends in an exception: when the \<open>INSERT\<close> is refused for a
  duplicate short code the call returns the result of the lookup of the short code by
  \<open>original_url\<close>, and it returns \<open>None\<close> exactly when the \<open>INSERT\<close> was refused and
  that lookup finds no row. The table is left unchanged in that case.
\<close>

theorem add_url_duplicate_key:
  "(\<exists>db' res. add_url db now url = Inr (db', res)) \<and>
   (sql_insert db now (generate_short_code (with_scheme url)) (with_scheme url)
      = Inl IntegrityError \<longrightarrow>
    add_url db now url =
      Inr (db, fetchone (map short_code
                 (filter (\<lambda>r. original_url r = with_scheme url) db)))) \<and>
   (add_url db now url = Inr (db', None) \<longleftrightarrow>
      db' = db \<and>
      sql_insert db now (generate_short_code (with_scheme url)) (with_scheme url)
        = Inl IntegrityError \<and>
      filter (\<lambda>r. original_url r = with_scheme url) db = [])"
proof (cases "generate_short_code (with_scheme url) \<in> set (map short_code db)")
  case True
  then have "sql_insert db now (generate_short_code (with_scheme url)) (with_scheme url)
      = Inl IntegrityError"
    by (simp add: sql_insert_def list_ex_code)
  with add_url_taken [OF True, of now] show ?thesis
    by (auto simp: fetchone_None_iff)
next
  case False
  then have "sql_insert db now (generate_short_code (with_scheme url)) (with_scheme url)
      \<noteq> Inl IntegrityError"
    by (simp add: sql_insert_def list_ex_code)
  with add_url_fresh [OF False, of now] show ?thesis by simp
qed

theorem add_url_duplicate_key_witness:
  "sql_insert [\<lparr>row_id = 1, short_code = ''9b3e23'', original_url = ''http://etc.com'',
            created_at = 0, click_count = 0\<rparr>] 1
      (generate_short_code (with_scheme ''geo.com'')) (with_scheme ''geo.com'')
      = Inl IntegrityError \<and>
   add_url [\<lparr>row_id = 1, short_code = ''9b3e23'', original_url = ''http://etc.com'',
            created_at = 0, click_count = 0\<rparr>] 1 ''geo.com'' =
      Inr ([\<lparr>row_id = 1, short_code = ''9b3e23'', original_url = ''http://etc.com'',
            created_at = 0, click_count = 0\<rparr>],
           fetchone (map short_code (filter (\<lambda>r. original_url r = with_scheme ''geo.com'')
             [\<lparr>row_id = 1, short_code = ''9b3e23'', original_url = ''http://etc.com'',
            created_at = 0, click_count = 0\<rparr>])))"
proof -
  let ?r = "\<lparr>row_id = 1, short_code = ''9b3e23'', original_url = ''http://etc.com'',
            created_at = 0, click_count = 0\<rparr>"
  have s: "sql_insert [?r] 1 (generate_short_code (with_scheme ''geo.com''))
             (with_scheme ''geo.com'') = Inl IntegrityError"
    by (simp add: sql_insert_def with_scheme_geo gsc_geo)
  from add_url_duplicate_key [of "[?r]" 1 "''geo.com''"] s show ?thesis by blast
qed

text \<open>
  C5. \<open>get_original_url\<close> returns \<open>None\<close> for a short code that no row has. For the
  short code of a row it returns that row's \<open>original_url\<close>; and after a successful
  \<open>INSERT\<close> of a code with a URL, whatever operations follow, the lookup of the code
  returns the URL inserted with it. The codes of a table are pairwise different (the
  \<open>UNIQUE\<close> constraint).
\<close>

theorem get_original_url_lookup:
  "(code \<notin> set (map short_code db) \<longrightarrow> get_original_url db code = None) \<and>
   (distinct (map short_code db) \<longrightarrow> r \<in> set db \<longrightarrow>
      get_original_url db (short_code r) = Some (original_url r)) \<and>
   (distinct (map short_code db) \<longrightarrow> sql_insert db now code url = Inr db' \<longrightarrow>
      get_original_url (run db' ops) code = Some url)"
proof (intro conjI impI)
  assume "code \<notin> set (map short_code db)"
  then show "get_original_url db code = None" by (rule get_original_url_absent)
next
  assume "distinct (map short_code db)" and "r \<in> set db"
  then show "get_original_url db (short_code r) = Some (original_url r)"
    by (rule get_original_url_present)
next
  assume d: "distinct (map short_code db)" and i: "sql_insert db now code url = Inr db'"
  let ?new = "\<lparr>row_id = next_rowid db, short_code = code, original_url = url,
                created_at = now, click_count = 0\<rparr>"
  from i have fresh: "code \<notin> set (map short_code db)" and db': "db' = db @ [?new]"
    by (auto simp: sql_insert_def list_ex_code split: if_splits)
  from d fresh db' have d': "distinct (map short_code db')" by simp
  have n: "length db < length db'" and new: "db' ! length db = ?new"
    using db' by simp_all
  from run_row [OF n, of ops] new
  have l: "length db < length (run db' ops)"
    and e: "same_entry ?new (run db' ops ! length db)" by simp_all
  let ?r = "run db' ops ! length db"
  from l have "?r \<in> set (run db' ops)" by (rule nth_mem)
  from get_original_url_present [OF distinct_codes_run [OF d'] this] e
  show "get_original_url (run db' ops) code = Some url"
    by (simp add: same_entry_def)
qed

theorem get_original_url_lookup_witness:
  "''ffffff'' \<notin> set (map short_code [\<lparr>row_id = 1, short_code = ''a9b9f0'',
       original_url = ''http://example.com'', created_at = 5, click_count = 0\<rparr>]) \<and>
   get_original_url [\<lparr>row_id = 1, short_code = ''a9b9f0'',
       original_url = ''http://example.com'', created_at = 5, click_count = 0\<rparr>] ''ffffff'' = None \<and>
   distinct (map short_code ([] :: database)) \<and>
   sql_insert [] 5 ''a9b9f0'' ''http://example.com'' =
     Inr [\<lparr>row_id = 1, short_code = ''a9b9f0'',
       original_url = ''http://example.com'', created_at = 5, click_count = 0\<rparr>] \<and>
   get_original_url
     (run [\<lparr>row_id = 1, short_code = ''a9b9f0'',
       original_url = ''http://example.com'', created_at = 5, click_count = 0\<rparr>]
        [Redirect \<lparr>request_version = ''HTTP/1.1'', self_path = ''/a9b9f0'',
             version_string = ''BaseHTTP/0.6 Python/3.11.10'',
             date_time_string = ''Tue, 03 Nov 2026 18:18:35 GMT''\<rparr>, Insert 8 ''example.com'']) ''a9b9f0'' = Some ''http://example.com''"
proof -
  let ?r = "\<lparr>row_id = 1, short_code = ''a9b9f0'',
       original_url = ''http://example.com'', created_at = 5, click_count = 0\<rparr>"
  have a: "''ffffff'' \<notin> set (map short_code [?r])" by simp
  have d: "distinct (map short_code ([] :: database))" by simp
  have i: "sql_insert [] 5 ''a9b9f0'' ''http://example.com'' = Inr [?r]"
    by (simp add: sql_insert_def next_rowid_def)
  from get_original_url_lookup [where code = "''ffffff''" and db = "[?r]"] a
  have 1: "get_original_url [?r] ''ffffff'' = None" by blast
  from get_original_url_lookup [where db = "[]" and now = 5 and code = "''a9b9f0''"
      and url = "''http://example.com''" and db' = "[?r]"
      and ops = "[Redirect \<lparr>request_version = ''HTTP/1.1'', self_path = ''/a9b9f0'',
             version_string = ''BaseHTTP/0.6 Python/3.11.10'',
             date_time_string = ''Tue, 03 Nov 2026 18:18:35 GMT''\<rparr>, Insert 8 ''example.com'']"] d i
  have 2: "get_original_url (run [?r] [Redirect \<lparr>request_version = ''HTTP/1.1'', self_path = ''/a9b9f0'',
             version_string = ''BaseHTTP/0.6 Python/3.11.10'',
             date_time_string = ''Tue, 03 Nov 2026 18:18:35 GMT''\<rparr>, Insert 8 ''example.com''])
      ''a9b9f0'' = Some ''http://example.com''" by blast
  from a 1 d i 2 show ?thesis by blast
qed

text \<open>
  C6. \<open>N\<close> calls of \<open>increment_click_count\<close> with the short code of a row leave that row
  with its \<open>click_count\<close> raised by \<open>N\<close> and nothing else changed, and the table keeps
  its length. A call with a short code that no row has returns the table unchanged.
\<close>

theorem increment_click_count_times:
  "(i < length db \<longrightarrow> short_code (db ! i) = code \<longrightarrow>
      ((\<lambda>d. increment_click_count d code) ^^ N) db ! i
        = (db ! i)\<lparr>click_count := click_count (db ! i) + int N\<rparr>) \<and>
   length (((\<lambda>d. increment_click_count d code) ^^ N) db) = length db \<and>
   (code \<notin> set (map short_code db) \<longrightarrow> increment_click_count db code = db)"
  by (simp add: nth_increment_funpow length_increment_funpow increment_absent)

theorem increment_click_count_times_witness:
  "(0::nat) < length [\<lparr>row_id = 1, short_code = ''a9b9f0'',
       original_url = ''http://example.com'', created_at = 5, click_count = 4\<rparr>] \<and>
   short_code ([\<lparr>row_id = 1, short_code = ''a9b9f0'',
       original_url = ''http://example.com'', created_at = 5, click_count = 4\<rparr>] ! 0) = ''a9b9f0'' \<and>
   ((\<lambda>d. increment_click_count d ''a9b9f0'') ^^ 3)
       [\<lparr>row_id = 1, short_code = ''a9b9f0'',
         original_url = ''http://example.com'', created_at = 5, click_count = 4\<rparr>] ! 0
     = \<lparr>row_id = 1, short_code = ''a9b9f0'',
         original_url = ''http://example.com'', created_at = 5, click_count = 7\<rparr> \<and>
   ''ffffff'' \<notin> set (map short_code [\<lparr>row_id = 1, short_code = ''a9b9f0'',
       original_url = ''http://example.com'', created_at = 5, click_count = 4\<rparr>]) \<and>
   increment_click_count [\<lparr>row_id = 1, short_code = ''a9b9f0'',
       original_url = ''http://example.com'', created_at = 5, click_count = 4\<rparr>] ''ffffff''
     = [\<lparr>row_id = 1, short_code = ''a9b9f0'',
       original_url = ''http://example.com'', created_at = 5, click_count = 4\<rparr>]"
proof -
  let ?r = "\<lparr>row_id = 1, short_code = ''a9b9f0'',
       original_url = ''http://example.com'', created_at = 5, click_count = 4\<rparr>"
  have a: "(0::nat) < length [?r]" and b: "short_code ([?r] ! 0) = ''a9b9f0''"
    and c: "''ffffff'' \<notin> set (map short_code [?r])" by simp_all
  from increment_click_count_times [where i = 0 and db = "[?r]" and code = "''a9b9f0''" and N = 3] a b
  have "((\<lambda>d. increment_click_count d ''a9b9f0'') ^^ 3) [?r] ! 0
          = ([?r] ! 0)\<lparr>click_count := click_count ([?r] ! 0) + int 3\<rparr>" by blast
  then have 1: "((\<lambda>d. increment_click_count d ''a9b9f0'') ^^ 3) [?r] ! 0
          = \<lparr>row_id = 1, short_code = ''a9b9f0'',
         original_url = ''http://example.com'', created_at = 5, click_count = 7\<rparr>" by simp
  from increment_click_count_times [where db = "[?r]" and code = "''ffffff''"] c
  have 2: "increment_click_count [?r] ''ffffff'' = [?r]" by blast
  from a b c 1 2 show ?thesis by blast
qed

text \<open>
  C7. \<open>get_all_urls\<close> returns every row of the table once, as the tuple of its four
  selected columns, ordered by \<open>created_at\<close> descending; the result is as long as the
  table, whatever its length.
\<close>

theorem get_all_urls_ordered:
  "mset (get_all_urls db)
     = image_mset (\<lambda>r. (short_code r, original_url r, created_at r, click_count r)) (mset db)
   \<and> sorted_wrt (\<lambda>(c1, u1, t1, n1) (c2, u2, t2, n2). t2 \<le> t1) (get_all_urls db)
   \<and> length (get_all_urls db) = length db"
  using sorted_desc_sort_key [of db]
  by (simp add: get_all_urls_def sorted_wrt_map)




text \<open>
  C9. Along every sequence of operations (insert, lookup, increment, listing, redirect)
  every entry of the table stays in its place with the same row id, short code, URL and
  creation time, and its \<open>click_count\<close> never decreases. A row added by \<open>add_url\<close>
  starts with \<open>click_count = 0\<close>, and no row of a table built from the empty table has
  a negative \<open>click_count\<close>.
\<close>

theorem click_count_monotone:
  "(i < length db \<longrightarrow>
      i < length (run db ops) \<and> same_entry (db ! i) (run db ops ! i) \<and>
      click_count (db ! i) \<le> click_count (run db ops ! i)) \<and>
   (add_url db now url = Inr (db', res) \<longrightarrow> db' \<noteq> db \<longrightarrow>
      db' = db @ [last db'] \<and> click_count (last db') = 0) \<and>
   (r \<in> set (run [] ops) \<longrightarrow> 0 \<le> click_count r)"
proof (intro conjI impI)
  assume i: "i < length db"
  from run_row [OF i, of ops]
  show "i < length (run db ops)" and "same_entry (db ! i) (run db ops ! i)"
    and "click_count (db ! i) \<le> click_count (run db ops ! i)" by simp_all
next
  assume a: "add_url db now url = Inr (db', res)" and n: "db' \<noteq> db"
  from add_url_cases [OF a] n
  show "db' = db @ [last db']" and "click_count (last db') = 0" by auto
next
  assume "r \<in> set (run [] ops)"
  with store_inv_row [OF store_inv_run [OF store_inv_Nil, of ops], of r]
  show "0 \<le> click_count r" by simp
qed

theorem click_count_monotone_witness:
  "(0::nat) < length [\<lparr>row_id = 1, short_code = ''a9b9f0'',
       original_url = ''http://example.com'', created_at = 5, click_count = 0\<rparr>] \<and>
   click_count ([\<lparr>row_id = 1, short_code = ''a9b9f0'',
       original_url = ''http://example.com'', created_at = 5, click_count = 0\<rparr>] ! 0)
     \<le> click_count (run [\<lparr>row_id = 1, short_code = ''a9b9f0'',
       original_url = ''http://example.com'', created_at = 5, click_count = 0\<rparr>]
          [Redirect \<lparr>request_version = ''HTTP/1.1'', self_path = ''/a9b9f0'',
             version_string = ''BaseHTTP/0.6 Python/3.11.10'',
             date_time_string = ''Tue, 03 Nov 2026 18:18:35 GMT''\<rparr>, Insert 8 ''etc.com'', Lookup ''a9b9f0'', ListAll,
           IncrementClicks ''a9b9f0''] ! 0) \<and>
   add_url [] 5 ''example.com'' =
     Inr ([\<lparr>row_id = 1, short_code = ''a9b9f0'', original_url = ''http://example.com'',
            created_at = 5, click_count = 0\<rparr>], Some ''a9b9f0'') \<and>
   click_count (last [\<lparr>row_id = 1, short_code = ''a9b9f0'',
       original_url = ''http://example.com'', created_at = 5, click_count = 0\<rparr>]) = 0 \<and>
   \<lparr>row_id = 1, short_code = ''a9b9f0'', original_url = ''http://example.com'',
      created_at = 5, click_count = 2\<rparr>
     \<in> set (run [] [Insert 5 ''example.com'', Redirect \<lparr>request_version = ''HTTP/1.1'', self_path = ''/a9b9f0'',
             version_string = ''BaseHTTP/0.6 Python/3.11.10'',
             date_time_string = ''Tue, 03 Nov 2026 18:18:35 GMT''\<rparr>, Redirect \<lparr>request_version = ''HTTP/1.1'', self_path = ''/a9b9f0'',
             version_string = ''BaseHTTP/0.6 Python/3.11.10'',
             date_time_string = ''Tue, 03 Nov 2026 18:18:35 GMT''\<rparr>]) \<and>
   0 \<le> click_count \<lparr>row_id = 1, short_code = ''a9b9f0'',
      original_url = ''http://example.com'', created_at = 5, click_count = 2\<rparr>"
proof -
  let ?r = "\<lparr>row_id = 1, short_code = ''a9b9f0'',
       original_url = ''http://example.com'', created_at = 5, click_count = 0\<rparr>"
  let ?ops = "[Redirect \<lparr>request_version = ''HTTP/1.1'', self_path = ''/a9b9f0'',
             version_string = ''BaseHTTP/0.6 Python/3.11.10'',
             date_time_string = ''Tue, 03 Nov 2026 18:18:35 GMT''\<rparr>, Insert 8 ''etc.com'', Lookup ''a9b9f0'', ListAll,
           IncrementClicks ''a9b9f0'']"
  have l: "(0::nat) < length [?r]" by simp
  have a: "add_url [] 5 ''example.com'' = Inr ([?r], Some ''a9b9f0'')"
    by (simp add: add_url_fresh with_scheme_example gsc_example next_rowid_def)
  have n: "[?r] \<noteq> []" by simp
  from click_count_monotone [where i = 0 and db = "[?r]" and ops = ?ops] l
  have 1: "click_count ([?r] ! 0) \<le> click_count (run [?r] ?ops ! 0)" by blast
  from click_count_monotone [where db = "[]" and now = 5 and url = "''example.com''"
      and db' = "[?r]" and res = "Some ''a9b9f0''"] a n
  have 2: "click_count (last [?r]) = 0" by blast
  let ?s = "\<lparr>row_id = 1, short_code = ''a9b9f0'', original_url = ''http://example.com'',
      created_at = 5, click_count = 2\<rparr>"
  let ?ops2 = "[Insert 5 ''example.com'', Redirect \<lparr>request_version = ''HTTP/1.1'', self_path = ''/a9b9f0'',
             version_string = ''BaseHTTP/0.6 Python/3.11.10'',
             date_time_string = ''Tue, 03 Nov 2026 18:18:35 GMT''\<rparr>, Redirect \<lparr>request_version = ''HTTP/1.1'', self_path = ''/a9b9f0'',
             version_string = ''BaseHTTP/0.6 Python/3.11.10'',
             date_time_string = ''Tue, 03 Nov 2026 18:18:35 GMT''\<rparr>]"
  have m: "?s \<in> set (run [] ?ops2)" by (simp add: run_example)
  from click_count_monotone [where r = ?s and ops = ?ops2] m
  have 3: "0 \<le> click_count ?s" by blast
  from l 1 a 2 m 3 show ?thesis by blast
qed




end
